theory Spec2Isabelle
  imports Main
begin

section \<open>Shared schema (shared/schema.ts)\<close>

text \<open>
  An \<open>MQTTMessage\<close> is \<open>{ topic, payload, timestamp? }\<close>.  The payload type is left
  open (\<open>z.any()\<close>); a \<open>Date\<close> is its number of milliseconds since the epoch, and the
  optional timestamp is \<open>None\<close> when the property is absent.
\<close>

record 'p MQTTMessage =
  topic :: string
  payload :: 'p
  timestamp :: "int option"

text \<open>\<open>InsertTopic\<close> picks \<open>path\<close> and \<open>brokerId\<close>; a \<open>Topic\<close> adds the serial \<open>id\<close>.\<close>

record InsertTopic =
  path :: string
  brokerId :: int

record Topic = InsertTopic +
  id_t :: nat

section \<open>JavaScript containers used by the storage\<close>

text \<open>
  A JavaScript \<open>Map\<close> iterates in insertion order: it is an association list whose keys
  are distinct.  \<open>set\<close> overwrites the value of a key in place and appends a new key at
  the end; \<open>delete\<close> reports whether the key was there.
\<close>

type_synonym ('k, 'v) js_map = "('k \<times> 'v) list"

fun Map_set :: "'k \<Rightarrow> 'v \<Rightarrow> ('k, 'v) js_map \<Rightarrow> ('k, 'v) js_map" where
  "Map_set k v [] = [(k, v)]"
| "Map_set k v ((k', v') # m) = (if k' = k then (k, v) # m else (k', v') # Map_set k v m)"

definition Map_values :: "('k, 'v) js_map \<Rightarrow> 'v list" where
  "Map_values m = map snd m"

definition Map_delete :: "'k \<Rightarrow> ('k, 'v) js_map \<Rightarrow> bool \<times> ('k, 'v) js_map" where
  "Map_delete k m = (k \<in> fst ` set m, filter (\<lambda>kv. fst kv \<noteq> k) m)"

text \<open>
  \<open>Array.prototype.slice(-n)\<close>: the last \<open>n\<close> elements, the whole array when it is
  shorter; \<open>slice(-0)\<close> is \<open>slice(0)\<close>, the whole array.
\<close>

definition slice_from_end :: "nat \<Rightarrow> 'a list \<Rightarrow> 'a list" where
  "slice_from_end n xs = (if n = 0 then xs else drop (length xs - n) xs)"

section \<open>MemStorage (server/storage.ts)\<close>

text \<open>
  The fields of \<open>MemStorage\<close> that the topic and message operations touch.  Every
  operation takes the storage and returns its result with the storage after the call.
  \<open>new Date()\<close> is the parameter \<open>now\<close> of the operations that read the clock.
\<close>

record 'p MemStorage =
  topics :: "(nat, Topic) js_map"
  messages :: "'p MQTTMessage list"
  topicId :: nat

definition maxHistorySize :: nat where
  "maxHistorySize = 10000"

definition new_MemStorage :: "'p MemStorage" where
  "new_MemStorage = \<lparr>topics = [], messages = [], topicId = 1\<rparr>"

definition getTopics :: "'p MemStorage \<Rightarrow> Topic list" where
  "getTopics st = Map_values (topics st)"

definition createTopic :: "InsertTopic \<Rightarrow> 'p MemStorage \<Rightarrow> Topic \<times> 'p MemStorage" where
  "createTopic tp st =
     (case find (\<lambda>t. path t = path tp) (Map_values (topics st)) of
        Some existingTopic \<Rightarrow> (existingTopic, st)
      | None \<Rightarrow>
          (let i = topicId st;
               st1 = st\<lparr>topicId := i + 1\<rparr>;
               newTopic = \<lparr>path = path tp, brokerId = brokerId tp, id_t = i\<rparr>
           in (newTopic, st1\<lparr>topics := Map_set i newTopic (topics st1)\<rparr>)))"

definition deleteTopic :: "string \<Rightarrow> 'p MemStorage \<Rightarrow> bool \<times> 'p MemStorage" where
  "deleteTopic p st =
     (case find (\<lambda>t. path t = p) (Map_values (topics st)) of
        Some topicToDelete \<Rightarrow>
          (let (r, m) = Map_delete (id_t topicToDelete) (topics st)
           in (r, st\<lparr>topics := m\<rparr>))
      | None \<Rightarrow> (False, st))"

text \<open>
  \<open>storeMessage\<close> writes the timestamp into the caller's object when it has none, so the
  message as it is after the call is returned beside the storage.
\<close>

definition storeMessage ::
  "int \<Rightarrow> 'p MQTTMessage \<Rightarrow> 'p MemStorage \<Rightarrow> 'p MQTTMessage \<times> 'p MemStorage" where
  "storeMessage now message st =
     (let message1 = (if timestamp message = None then message\<lparr>timestamp := Some now\<rparr>
                      else message);
          pushed = messages st @ [message1]
      in (message1,
          st\<lparr>messages := (if length pushed > maxHistorySize
                            then slice_from_end maxHistorySize pushed else pushed)\<rparr>))"

definition startTime :: "int \<Rightarrow> string \<Rightarrow> int" where
  "startTime now timeRange =
     (if timeRange = ''1h'' then now - 60 * 60 * 1000
      else if timeRange = ''6h'' then now - 6 * 60 * 60 * 1000
      else if timeRange = ''24h'' then now - 24 * 60 * 60 * 1000
      else if timeRange = ''7d'' then now - 7 * 24 * 60 * 60 * 1000
      else now - 60 * 60 * 1000)"

definition getMessageHistory ::
  "int \<Rightarrow> string \<Rightarrow> string \<Rightarrow> 'p MemStorage \<Rightarrow> 'p MQTTMessage list \<times> 'p MemStorage" where
  "getMessageHistory now tp timeRange st =
     (filter (\<lambda>msg. topic msg = tp \<and>
                timestamp msg \<noteq> None \<and>
                the (timestamp msg) \<ge> startTime now timeRange)
        (messages st),
      st)"

text \<open>A run of \<open>storeMessage\<close> calls, each with the clock reading at its call.\<close>

fun store_all :: "(int \<times> 'p MQTTMessage) list \<Rightarrow> 'p MemStorage \<Rightarrow> 'p MemStorage" where
  "store_all [] st = st"
| "store_all ((now, m) # ms) st = store_all ms (snd (storeMessage now m st))"

text \<open>The message as \<open>storeMessage\<close> leaves it: stamped with the clock when it had no timestamp.\<close>

definition stamped :: "int \<times> 'p MQTTMessage \<Rightarrow> 'p MQTTMessage" where
  "stamped nm = fst (storeMessage (fst nm) (snd nm) new_MemStorage)"

text \<open>A run of 10,001 messages numbered in arrival order, none carrying a timestamp.\<close>

definition sample_run :: "(int \<times> nat MQTTMessage) list" where
  "sample_run = map (\<lambda>i. (int i, \<lparr>topic = ''t'', payload = i, timestamp = None\<rparr>)) [0..<10001]"

section \<open>The query as the specification words it\<close>

text \<open>
  The length of a retention window in milliseconds: 1 hour, 6 hours, 24 hours, 7 days,
  and 1 hour for any other value.
\<close>

definition window_length :: "string \<Rightarrow> int" where
  "window_length w =
     (if w = ''6h'' then 6 * 3600000
      else if w = ''24h'' then 24 * 3600000
      else if w = ''7d'' then 7 * 24 * 3600000
      else 3600000)"

text \<open>
  The specification's query: the retained messages on the topic whose timestamp lies in
  the closed interval from \<open>now - d\<close> to \<open>now\<close>.
\<close>

definition query_spec :: "int \<Rightarrow> string \<Rightarrow> string \<Rightarrow> 'p MemStorage \<Rightarrow> 'p MQTTMessage list" where
  "query_spec now tp w st =
     filter (\<lambda>msg. topic msg = tp \<and>
               timestamp msg \<noteq> None \<and>
               now - window_length w \<le> the (timestamp msg) \<and> the (timestamp msg) \<le> now)
       (messages st)"

text \<open>A storage holding one message whose timestamp is later than the clock of the query.\<close>

definition future_store :: "unit MemStorage" where
  "future_store =
     snd (storeMessage 0 \<lparr>topic = ''t'', payload = (), timestamp = Some 2000\<rparr> new_MemStorage)"

text \<open>
  A storage that received a message on topic \<open>t\<close> two hours before the clock reading
  10,000,000 and another one thirty minutes before it.
\<close>

definition two_message_store :: "string MemStorage" where
  "two_message_store =
     store_all [(2800000, \<lparr>topic = ''t'', payload = ''old'', timestamp = None\<rparr>),
                (8200000, \<lparr>topic = ''t'', payload = ''recent'', timestamp = None\<rparr>)]
       new_MemStorage"

text \<open>Every topic id in use is below the id counter.\<close>

definition ids_below_counter :: "'p MemStorage \<Rightarrow> bool" where
  "ids_below_counter st = list_all (\<lambda>kv. fst kv < topicId st) (topics st)"

text \<open>A storage with two topics, and a request for the path of the first one.\<close>

definition two_topic_store :: "unit MemStorage" where
  "two_topic_store =
     snd (createTopic \<lparr>path = ''sensor/b'', brokerId = 1\<rparr>
       (snd (createTopic \<lparr>path = ''sensor/a'', brokerId = 1\<rparr> new_MemStorage)))"

section \<open>MQTT bridge (server/mqtt-client.ts)\<close>

text \<open>
  The values \<open>JSON.parse\<close> produces; a payload that is not JSON is kept as the string
  itself.  Numbers are the integers.
\<close>

datatype json =
    JNull
  | JBool bool
  | JNumber int
  | JString string
  | JArray "json list"
  | JObject "(string \<times> json) list"

text \<open>
  A JavaScript \<open>Set\<close> iterates in insertion order: a list without repetition.  \<open>add\<close>
  leaves the set alone when the value is in it and appends it otherwise.
\<close>

definition Set_add :: "'a \<Rightarrow> 'a list \<Rightarrow> 'a list" where
  "Set_add x xs = (if x \<in> set xs then xs else xs @ [x])"

definition Set_delete :: "'a \<Rightarrow> 'a list \<Rightarrow> 'a list" where
  "Set_delete x xs = filter (\<lambda>y. y \<noteq> x) xs"

text \<open>
  A message listener is a callback of the embedding application.  Called with the
  message, it changes the world outside the bridge (of type \<open>'w\<close>) and then returns or
  throws; it may read the storage.
\<close>

datatype 'w outcome = Returned 'w | Threw string 'w

type_synonym 'w listener = "json MQTTMessage \<Rightarrow> json MemStorage \<Rightarrow> 'w \<Rightarrow> 'w outcome"

text \<open>
  The library's client object, as far as the bridge reads it, and the requests whose
  callbacks the library still owes.
\<close>

record MqttClient =
  connected :: bool

datatype request = SubscribeRequest string | UnsubscribeRequest string

text \<open>
  The fields of \<open>MQTTServerClient\<close> that the message and subscription paths touch,
  together with what they reach outside the object: the storage singleton, the lines
  written by \<open>log\<close> (message and source), the callbacks handed to the library, and
  the listeners' world.
\<close>

record 'w MQTTServerClient =
  client :: "MqttClient option"
  messageListeners :: "'w listener list"
  subscribedTopics :: "string list"
  storage :: "json MemStorage"
  logged :: "(string \<times> string) list"
  pending :: "request list"
  world :: 'w

definition new_MQTTServerClient :: "'w \<Rightarrow> 'w MQTTServerClient" where
  "new_MQTTServerClient w =
     \<lparr>client = None, messageListeners = [], subscribedTopics = [],
      storage = new_MemStorage, logged = [], pending = [], world = w\<rparr>"

definition log :: "string \<Rightarrow> string \<Rightarrow> 'w MQTTServerClient \<Rightarrow> 'w MQTTServerClient" where
  "log line source s = s\<lparr>logged := logged s @ [(line, source)]\<rparr>"

definition isConnected :: "'w MQTTServerClient \<Rightarrow> bool" where
  "isConnected s = (case client s of None \<Rightarrow> False | Some c \<Rightarrow> connected c)"

definition addMessageListener :: "'w listener \<Rightarrow> 'w MQTTServerClient \<Rightarrow> 'w MQTTServerClient" where
  "addMessageListener listener s = s\<lparr>messageListeners := messageListeners s @ [listener]\<rparr>"

text \<open>
  \<open>subscribe\<close> and \<open>unsubscribe\<close> hand the request with its callback to the library
  and return at once; without a connected client they log and return \<open>false\<close>.
\<close>

definition subscribe :: "string \<Rightarrow> 'w MQTTServerClient \<Rightarrow> bool \<times> 'w MQTTServerClient" where
  "subscribe tp s =
     (if \<not> isConnected s
      then (False, log ''Cannot subscribe, MQTT client not connected'' ''mqtt'' s)
      else (True, s\<lparr>pending := pending s @ [SubscribeRequest tp]\<rparr>))"

definition unsubscribe :: "string \<Rightarrow> 'w MQTTServerClient \<Rightarrow> bool \<times> 'w MQTTServerClient" where
  "unsubscribe tp s =
     (if \<not> isConnected s
      then (False, log ''Cannot unsubscribe, MQTT client not connected'' ''mqtt'' s)
      else (True, s\<lparr>pending := pending s @ [UnsubscribeRequest tp]\<rparr>))"

text \<open>The callbacks given to the library: \<open>err\<close> is the error's message, if any.\<close>

definition subscribe_callback ::
  "string \<Rightarrow> string option \<Rightarrow> 'w MQTTServerClient \<Rightarrow> 'w MQTTServerClient" where
  "subscribe_callback tp err s =
     (case err of
        Some e \<Rightarrow> log (''Error subscribing to topic '' @ tp @ '': '' @ e) ''mqtt'' s
      | None \<Rightarrow>
          (let s1 = log (''Subscribed to topic: '' @ tp) ''mqtt'' s
           in s1\<lparr>subscribedTopics := Set_add tp (subscribedTopics s1)\<rparr>))"

definition unsubscribe_callback ::
  "string \<Rightarrow> string option \<Rightarrow> 'w MQTTServerClient \<Rightarrow> 'w MQTTServerClient" where
  "unsubscribe_callback tp err s =
     (case err of
        Some e \<Rightarrow> log (''Error unsubscribing from topic '' @ tp @ '': '' @ e) ''mqtt'' s
      | None \<Rightarrow>
          (let s1 = log (''Unsubscribed from topic: '' @ tp) ''mqtt'' s
           in s1\<lparr>subscribedTopics := Set_delete tp (subscribedTopics s1)\<rparr>))"

text \<open>
  The library answers the \<open>i\<close>-th outstanding request: the request leaves the queue and
  its callback runs with the broker's verdict.
\<close>

definition broker_reply ::
  "nat \<Rightarrow> string option \<Rightarrow> 'w MQTTServerClient \<Rightarrow> 'w MQTTServerClient" where
  "broker_reply i err s =
     (if i < length (pending s)
      then (let s1 = s\<lparr>pending := take i (pending s) @ drop (Suc i) (pending s)\<rparr>
            in case pending s ! i of
                 SubscribeRequest tp \<Rightarrow> subscribe_callback tp err s1
               | UnsubscribeRequest tp \<Rightarrow> unsubscribe_callback tp err s1)
      else s)"

text \<open>The handler of the library's \<open>connect\<close> event: every remembered topic is subscribed again.\<close>

definition on_connect :: "string \<Rightarrow> 'w MQTTServerClient \<Rightarrow> 'w MQTTServerClient" where
  "on_connect fullUrl s =
     fold (\<lambda>tp s'. snd (subscribe tp s')) (subscribedTopics s)
       (log (''Server connected to MQTT broker: '' @ fullUrl) ''mqtt'' s)"

text \<open>
  The handler of the library's \<open>message\<close> event.  \<open>JSON_parse\<close> is the runtime's parser
  (\<open>None\<close> when it throws), \<open>now\<close> the clock, \<open>text\<close> the payload as a string.
\<close>

definition received_message ::
  "(string \<Rightarrow> json option) \<Rightarrow> int \<Rightarrow> string \<Rightarrow> string \<Rightarrow> json MQTTMessage" where
  "received_message JSON_parse now tp text =
     (let parsedPayload = (case JSON_parse text of Some v \<Rightarrow> v | None \<Rightarrow> JString text)
      in \<lparr>topic = tp, payload = parsedPayload, timestamp = Some now\<rparr>)"

fun notify ::
  "'w listener list \<Rightarrow> json MQTTMessage \<Rightarrow> 'w MQTTServerClient \<Rightarrow> 'w MQTTServerClient" where
  "notify [] message s = s"
| "notify (listener # ls) message s =
     (case listener message (storage s) (world s) of
        Returned w \<Rightarrow> notify ls message (s\<lparr>world := w\<rparr>)
      | Threw err w \<Rightarrow>
          notify ls message (log (''Error in message listener: '' @ err) ''mqtt'' (s\<lparr>world := w\<rparr>)))"

definition on_message ::
  "(string \<Rightarrow> json option) \<Rightarrow> int \<Rightarrow> string \<Rightarrow> string \<Rightarrow> 'w MQTTServerClient
     \<Rightarrow> 'w MQTTServerClient" where
  "on_message JSON_parse now tp text s =
     (let message = received_message JSON_parse now tp text;
          (message1, st1) = storeMessage now message (storage s);
          s1 = s\<lparr>storage := st1\<rparr>
      in notify (messageListeners s1) message1 s1)"

text \<open>What happens to the bridge, one event at a time.\<close>

datatype 'w event =
    Subscribe string
  | Unsubscribe string
  | BrokerReply nat "string option"
  | ClientCreated
  | ClientConnected string
  | ClientOffline
  | ClientEnded
  | MessageArrived int string string
  | ListenerAdded "'w listener"

fun step :: "(string \<Rightarrow> json option) \<Rightarrow> 'w event \<Rightarrow> 'w MQTTServerClient \<Rightarrow> 'w MQTTServerClient" where
  "step P (Subscribe tp) s = snd (subscribe tp s)"
| "step P (Unsubscribe tp) s = snd (unsubscribe tp s)"
| "step P (BrokerReply i err) s = broker_reply i err s"
| "step P ClientCreated s = s\<lparr>client := Some \<lparr>connected = False\<rparr>\<rparr>"
| "step P (ClientConnected fullUrl) s =
     (case client s of None \<Rightarrow> s
      | Some c \<Rightarrow> on_connect fullUrl (s\<lparr>client := Some (c\<lparr>connected := True\<rparr>)\<rparr>))"
| "step P ClientOffline s =
     (case client s of None \<Rightarrow> s
      | Some c \<Rightarrow> log ''MQTT server client offline'' ''mqtt'' (s\<lparr>client := Some (c\<lparr>connected := False\<rparr>)\<rparr>))"
| "step P ClientEnded s = log ''Disconnected from MQTT broker'' ''mqtt'' (s\<lparr>client := None\<rparr>)"
| "step P (MessageArrived now tp text) s = on_message P now tp text s"
| "step P (ListenerAdded listener) s = addMessageListener listener s"

definition run :: "(string \<Rightarrow> json option) \<Rightarrow> 'w event list \<Rightarrow> 'w MQTTServerClient \<Rightarrow> 'w MQTTServerClient" where
  "run P evs s = fold (step P) evs s"

text \<open>The world a listener leaves behind, whether it returned or threw.\<close>

fun world_after :: "'w outcome \<Rightarrow> 'w" where
  "world_after (Returned w) = w"
| "world_after (Threw err w) = w"

section \<open>Sample runtime, listeners and bridges\<close>

text \<open>
  A parser that accepts the unsigned decimal integer literals of JSON and throws on
  every other text; it stands in for \<open>JSON.parse\<close> where a handler is run on the
  payloads \<open>42\<close> and \<open>not json\<close>.
\<close>

definition is_digit :: "char \<Rightarrow> bool" where
  "is_digit c = (48 \<le> (of_char c :: nat) \<and> (of_char c :: nat) \<le> 57)"

definition decimal_parse :: "string \<Rightarrow> json option" where
  "decimal_parse text =
     (if text \<noteq> [] \<and> list_all is_digit text \<and> (hd text \<noteq> CHR ''0'' \<or> length text = 1)
      then Some (JNumber (int (foldl (\<lambda>n c. 10 * n + (of_char c - 48)) 0 text)))
      else None)"

text \<open>
  A listener that writes down its name, the payload it was given and whether the message
  was in the storage by then; and a listener that throws.
\<close>

definition recorder :: "string \<Rightarrow> (string \<times> json \<times> bool) list listener" where
  "recorder name message st w = Returned (w @ [(name, payload message, message \<in> set (messages st))])"

definition thrower :: "(string \<times> json \<times> bool) list listener" where
  "thrower message st w = Threw ''boom'' w"

definition three_listener_client :: "(string \<times> json \<times> bool) list MQTTServerClient" where
  "three_listener_client =
     addMessageListener (recorder ''third'')
       (addMessageListener thrower
         (addMessageListener (recorder ''first'') (new_MQTTServerClient [])))"

text \<open>A bridge whose client has been created and has connected.\<close>

definition connected_client :: "unit MQTTServerClient" where
  "connected_client =
     run decimal_parse [ClientCreated, ClientConnected ''ws://broker:9001''] (new_MQTTServerClient ())"

section \<open>Regular expressions of the runtime\<close>

text \<open>
  \<open>matchTopic\<close> builds a regular expression from the pattern and runs it on the topic.
  The part of the runtime it relies on is embedded here: the parser of \<open>new RegExp\<close> for
  patterns written with literal characters, \<open>.\<close>, character classes that list their
  members, groups, \<open>|\<close>, the quantifiers \<open>*\<close>, \<open>+\<close>, \<open>?\<close> (also lazy) and the
  assertions \<open>^\<close> and \<open>$\<close>, and \<open>test\<close> without flags.  A pattern that uses anything
  else (a backslash, a brace, a group opening with \<open>(?\<close>, a range or escape in a class)
  is answered \<open>NotModelled\<close>: nothing is said about it.  Strings are lists of 8-bit
  characters.
\<close>

datatype regex =
    Empty
  | Chr char
  | Dot
  | Class bool "char list"
  | Bol
  | Eol
  | Seq regex regex
  | Alt regex regex
  | Star regex
  | Plus regex
  | Opt regex

datatype regexp_error = SyntaxError | NotModelled

subsection \<open>Parsing\<close>

text \<open>
  The parser reads the source one character at a time.  It keeps the alternatives and the
  terms of the group being read (latest first) and a stack of the enclosing groups.  A
  term remembers whether a quantifier may still follow it: an atom takes one, a quantified
  atom takes only the \<open>?\<close> that makes it lazy, an assertion takes none.
\<close>

datatype quantifiability = Quantifiable | Quantified | Fixed

type_synonym frame = "regex list \<times> (regex \<times> quantifiability) list"

datatype mode = Normal | GroupStart | ClassStart | ClassBody bool "char list"

type_synonym pstate = "mode \<times> frame list \<times> frame"

definition seq_of :: "(regex \<times> quantifiability) list \<Rightarrow> regex" where
  "seq_of items = foldr Seq (rev (map fst items)) Empty"

fun alt_of :: "regex list \<Rightarrow> regex" where
  "alt_of [] = Empty"
| "alt_of [r] = r"
| "alt_of (r # rs) = Alt r (alt_of rs)"

definition close_frame :: "frame \<Rightarrow> regex" where
  "close_frame fr = alt_of (rev (seq_of (snd fr) # fst fr))"

definition push :: "regex \<Rightarrow> quantifiability \<Rightarrow> frame list \<Rightarrow> frame \<Rightarrow> regexp_error + pstate" where
  "push r q stack fr = Inr (Normal, stack, (fst fr, (r, q) # snd fr))"

definition quantify :: "char \<Rightarrow> frame list \<Rightarrow> frame \<Rightarrow> regexp_error + pstate" where
  "quantify c stack fr =
     (case snd fr of
        [] \<Rightarrow> Inl SyntaxError
      | (r, q) # rest \<Rightarrow>
          (case q of
             Quantifiable \<Rightarrow>
               Inr (Normal, stack,
                    (fst fr, ((if c = CHR ''*'' then Star r
                               else if c = CHR ''+'' then Plus r else Opt r), Quantified) # rest))
           | Quantified \<Rightarrow>
               (if c = CHR ''?'' then Inr (Normal, stack, (fst fr, (r, Fixed) # rest))
                else Inl SyntaxError)
           | Fixed \<Rightarrow> Inl SyntaxError))"

definition normal_char :: "char \<Rightarrow> frame list \<Rightarrow> frame \<Rightarrow> regexp_error + pstate" where
  "normal_char c stack fr =
     (if c = CHR ''('' then Inr (GroupStart, fr # stack, ([], []))
      else if c = CHR '')'' then
        (case stack of
           [] \<Rightarrow> Inl SyntaxError
         | outer # stack' \<Rightarrow> push (close_frame fr) Quantifiable stack' outer)
      else if c = CHR ''|'' then Inr (Normal, stack, (seq_of (snd fr) # fst fr, []))
      else if c = CHR ''*'' \<or> c = CHR ''+'' \<or> c = CHR ''?'' then quantify c stack fr
      else if c = CHR ''['' then Inr (ClassStart, stack, fr)
      else if c = CHR ''.'' then push Dot Quantifiable stack fr
      else if c = CHR ''^'' then push Bol Fixed stack fr
      else if c = CHR ''$'' then push Eol Fixed stack fr
      else if c = CHR 0x5C \<or> c = CHR ''{'' then Inl NotModelled
      else push (Chr c) Quantifiable stack fr)"

definition class_char ::
  "char \<Rightarrow> bool \<Rightarrow> char list \<Rightarrow> frame list \<Rightarrow> frame \<Rightarrow> regexp_error + pstate" where
  "class_char c neg acc stack fr =
     (if c = CHR '']'' then push (Class neg (rev acc)) Quantifiable stack fr
      else if c = CHR 0x5C \<or> c = CHR ''-'' then Inl NotModelled
      else Inr (ClassBody neg (c # acc), stack, fr))"

definition pstep :: "char \<Rightarrow> regexp_error + pstate \<Rightarrow> regexp_error + pstate" where
  "pstep c st =
     (case st of
        Inl e \<Rightarrow> Inl e
      | Inr (m, stack, fr) \<Rightarrow>
          (case m of
             Normal \<Rightarrow> normal_char c stack fr
           | GroupStart \<Rightarrow> (if c = CHR ''?'' then Inl NotModelled else normal_char c stack fr)
           | ClassStart \<Rightarrow>
               (if c = CHR ''^'' then Inr (ClassBody True [], stack, fr)
                else class_char c False [] stack fr)
           | ClassBody neg acc \<Rightarrow> class_char c neg acc stack fr))"

definition finish :: "regexp_error + pstate \<Rightarrow> regexp_error + regex" where
  "finish st =
     (case st of
        Inl e \<Rightarrow> Inl e
      | Inr (m, stack, fr) \<Rightarrow>
          (if m = Normal \<and> stack = [] then Inr (close_frame fr) else Inl SyntaxError))"

definition RegExp_new :: "string \<Rightarrow> regexp_error + regex" where
  "RegExp_new src = finish (fold pstep src (Inr (Normal, [], ([], []))))"

subsection \<open>Matching\<close>

text \<open>
  A matcher state is what is left of the input, with a flag telling whether the whole
  input is still ahead.  \<open>ends r x\<close> is the set of states in which a match of \<open>r\<close>
  begun in \<open>x\<close> can end.  \<open>.\<close> matches every character but a line terminator.
\<close>

type_synonym mstate = "bool \<times> string"

definition line_terminator :: "char \<Rightarrow> bool" where
  "line_terminator c = (c = CHR 0x0A \<or> c = CHR 0x0D)"

definition one_char :: "(char \<Rightarrow> bool) \<Rightarrow> mstate \<Rightarrow> mstate set" where
  "one_char ok x = (case snd x of [] \<Rightarrow> {} | d # s \<Rightarrow> if ok d then {(False, s)} else {})"

fun iterate :: "(mstate \<Rightarrow> mstate set) \<Rightarrow> nat \<Rightarrow> mstate \<Rightarrow> mstate set" where
  "iterate f 0 x = {x}"
| "iterate f (Suc n) x = insert x (\<Union> (iterate f n ` f x))"

primrec ends :: "regex \<Rightarrow> mstate \<Rightarrow> mstate set" where
  "ends Empty = (\<lambda>x. {x})"
| "ends (Chr c) = one_char (\<lambda>d. d = c)"
| "ends Dot = one_char (\<lambda>d. \<not> line_terminator d)"
| "ends (Class neg cs) = one_char (\<lambda>d. (d \<in> set cs) \<noteq> neg)"
| "ends Bol = (\<lambda>x. if fst x then {x} else {})"
| "ends Eol = (\<lambda>x. if snd x = [] then {x} else {})"
| "ends (Seq p q) = (\<lambda>x. \<Union> (ends q ` ends p x))"
| "ends (Alt p q) = (\<lambda>x. ends p x \<union> ends q x)"
| "ends (Star p) = (\<lambda>x. iterate (ends p) (length (snd x)) x)"
| "ends (Plus p) = (\<lambda>x. \<Union> ((\<lambda>y. iterate (ends p) (length (snd y)) y) ` ends p x))"
| "ends (Opt p) = (\<lambda>x. insert x (ends p x))"

text \<open>\<open>test\<close> without flags looks for a match starting at any index of the input.\<close>

definition RegExp_test :: "regex \<Rightarrow> string \<Rightarrow> bool" where
  "RegExp_test re s = (\<exists>i \<in> {0..length s}. ends re (i = 0, drop i s) \<noteq> {})"

section \<open>Topic matcher of the browser client\<close>

text \<open>\<open>String.prototype.replace\<close> with the three patterns of \<open>matchTopic\<close>.\<close>

definition replace_plus :: "string \<Rightarrow> string" where
  "replace_plus s = concat (map (\<lambda>c. if c = CHR ''+'' then ''[^/]+'' else [c]) s)"

definition replace_trailing_hash :: "string \<Rightarrow> string" where
  "replace_trailing_hash s =
     (if length s \<ge> 2 \<and> drop (length s - 2) s = ''/#''
      then take (length s - 2) s @ ''(/.*)?'' else s)"

definition replace_hash :: "string \<Rightarrow> string" where
  "replace_hash s = concat (map (\<lambda>c. if c = CHR ''#'' then ''.*'' else [c]) s)"

definition regexPattern :: "string \<Rightarrow> string" where
  "regexPattern pattern = replace_hash (replace_trailing_hash (replace_plus pattern))"

text \<open>The result is the boolean returned, or the error \<open>new RegExp\<close> throws.\<close>

definition matchTopic :: "string \<Rightarrow> string \<Rightarrow> regexp_error + bool" where
  "matchTopic pattern tp =
     (if pattern = ''#'' then Inr True
      else (case RegExp_new (''^'' @ regexPattern pattern @ ''$'') of
              Inl e \<Rightarrow> Inl e
            | Inr regex \<Rightarrow> Inr (RegExp_test regex tp)))"

text \<open>
  The characters that \<open>new RegExp\<close> reads as themselves and \<open>matchTopic\<close> leaves alone:
  all but the wildcards and the characters with a meaning in a regular expression.
\<close>

definition inert :: "char \<Rightarrow> bool" where
  "inert c = (c \<notin> set (CHR 0x5C # ''^$.*+?()[{|#''))"

text \<open>The sequence of the terms of one alternative, and the terms of a literal text.\<close>

definition seqs :: "regex list \<Rightarrow> regex" where
  "seqs rs = foldr Seq rs Empty"

definition lits :: "string \<Rightarrow> regex list" where
  "lits p = map Chr p"

section \<open>Properties of the storage\<close>

subsection \<open>Capacity and eviction\<close>

lemma fst_storeMessage:
  "fst (storeMessage now m st) = (if timestamp m = None then m\<lparr>timestamp := Some now\<rparr> else m)"
  by (simp add: storeMessage_def Let_def)

lemma fst_storeMessage_stamped: "fst (storeMessage now m st) = stamped (now, m)"
  by (simp add: stamped_def fst_storeMessage)

lemma messages_storeMessage:
  "messages (snd (storeMessage now m st)) =
     drop (Suc (length (messages st)) - maxHistorySize) (messages st @ [stamped (now, m)])"
  by (simp add: storeMessage_def Let_def slice_from_end_def maxHistorySize_def
      fst_storeMessage stamped_def)

lemma length_storeMessage:
  "length (messages (snd (storeMessage now m st))) = min (Suc (length (messages st))) maxHistorySize"
  by (simp add: messages_storeMessage maxHistorySize_def)

lemma drop_drop_append:
  "b \<le> length xs \<Longrightarrow> drop a (drop b xs @ ys) = drop (a + b) (xs @ ys)"
  by (simp add: drop_append add.commute)

lemma store_all_messages:
  "length (messages st) \<le> maxHistorySize \<Longrightarrow> messages (store_all ms st) =
     drop (length (messages st) + length ms - maxHistorySize) (messages st @ map stamped ms)"
proof (induction ms arbitrary: st)
  case Nil
  then show ?case by simp
next
  case (Cons a ms)
  obtain now m where a: "a = (now, m)" by (cases a)
  let ?st1 = "snd (storeMessage now m st)"
  let ?b = "Suc (length (messages st)) - maxHistorySize"
  let ?X = "messages st @ [stamped (now, m)]"
  have len1: "length (messages ?st1) \<le> maxHistorySize"
    by (simp add: length_storeMessage)
  have b: "?b \<le> length ?X" by simp
  have ar: "length (messages ?st1) + length ms - maxHistorySize + ?b
          = length (messages st) + length (a # ms) - maxHistorySize"
    using Cons.prems unfolding length_storeMessage by (cases "Suc (length (messages st)) \<le> maxHistorySize") auto
  have "messages (store_all (a # ms) st) = messages (store_all ms ?st1)"
    by (simp add: a)
  also have "\<dots> = drop (length (messages ?st1) + length ms - maxHistorySize)
                     (messages ?st1 @ map stamped ms)"
    by (rule Cons.IH[OF len1])
  also have "\<dots> = drop (length (messages ?st1) + length ms - maxHistorySize)
                     (drop ?b ?X @ map stamped ms)"
    by (simp only: messages_storeMessage)
  also have "\<dots> = drop (length (messages ?st1) + length ms - maxHistorySize + ?b)
                     (?X @ map stamped ms)"
    by (rule drop_drop_append[OF b])
  also have "\<dots> = drop (length (messages st) + length (a # ms) - maxHistorySize)
                     (messages st @ map stamped (a # ms))"
    by (simp only: ar) (simp add: a)
  finally show ?case .
qed

lemma store_all_new:
  "messages (store_all ms new_MemStorage) = drop (length ms - maxHistorySize) (map stamped ms)"
  using store_all_messages[of new_MemStorage ms] by (simp add: new_MemStorage_def)

text \<open>
  C3.  After every \<open>storeMessage\<close> call the storage holds at most 10,000 messages: the
  call appends the message and keeps the last 10,000 of the result, so a full storage
  stays at exactly 10,000.  A run of calls on an empty storage therefore retains the most
  recent 10,000 messages in arrival order, and a run of 10,001 calls retains all but the
  first one.
\<close>

theorem storeMessage_capacity_fifo:
  "length (messages (snd (storeMessage now m st))) \<le> 10000
   \<and> messages (snd (storeMessage now m st)) =
       (let pushed = messages st @ [fst (storeMessage now m st)]
        in drop (length pushed - 10000) pushed)
   \<and> (length (messages st) \<ge> 10000 \<longrightarrow>
         length (messages (snd (storeMessage now m st))) = 10000)
   \<and> messages (store_all ms new_MemStorage) = drop (length ms - 10000) (map stamped ms)
   \<and> (length ms = 10001 \<longrightarrow>
         length (messages (store_all ms new_MemStorage)) = 10000
         \<and> messages (store_all ms new_MemStorage) = map stamped (tl ms))"
proof -
  have c1: "length (messages (snd (storeMessage now m st))) \<le> 10000"
    by (simp add: length_storeMessage maxHistorySize_def)
  have c2: "messages (snd (storeMessage now m st)) =
       (let pushed = messages st @ [fst (storeMessage now m st)]
        in drop (length pushed - 10000) pushed)"
    by (simp add: messages_storeMessage fst_storeMessage_stamped maxHistorySize_def)
  have c3: "length (messages st) \<ge> 10000 \<longrightarrow>
         length (messages (snd (storeMessage now m st))) = 10000"
    by (simp add: length_storeMessage maxHistorySize_def)
  have c4: "messages (store_all ms new_MemStorage) = drop (length ms - 10000) (map stamped ms)"
    by (simp add: store_all_new maxHistorySize_def)
  have d1: "drop (Suc 0) (map stamped ms) = map stamped (tl ms)"
    by (simp add: drop_Suc map_tl)
  have c5: "length ms = 10001 \<longrightarrow>
         length (messages (store_all ms new_MemStorage)) = 10000
         \<and> messages (store_all ms new_MemStorage) = map stamped (tl ms)"
    by (simp add: c4 d1)
  from c1 c2 c3 c4 c5 show ?thesis by blast
qed

theorem storeMessage_capacity_fifo_witness:
  "length sample_run = 10001
   \<and> length (messages (store_all sample_run new_MemStorage)) = 10000
   \<and> messages (store_all sample_run new_MemStorage) = map stamped (tl sample_run)
   \<and> hd (messages (store_all sample_run new_MemStorage))
        = \<lparr>topic = ''t'', payload = 1, timestamp = Some 1\<rparr>"
proof -
  let ?f = "\<lambda>i. (int i, \<lparr>topic = ''t'', payload = i, timestamp = None\<rparr>)"
  have l: "length sample_run = 10001"
    unfolding sample_run_def by (simp only: length_map length_upt)
  have t: "tl sample_run = map ?f [Suc 0..<10001]"
    unfolding sample_run_def by (simp only: map_tl[symmetric] tl_upt)
  have ne: "[Suc 0..<10001] \<noteq> []"
    by (simp only: upt_eq_Nil_conv) simp
  have h1: "hd (map stamped (tl sample_run)) = stamped (?f (hd [Suc 0..<10001]))"
    unfolding t using ne by (simp only: hd_map map_is_Nil_conv not_False_eq_True)
  have h2: "hd [Suc 0..<10001] = Suc 0"
    by (rule hd_upt) simp
  have h3: "stamped (?f (Suc 0)) = \<lparr>topic = ''t'', payload = 1, timestamp = Some 1\<rparr>"
    by (simp add: stamped_def fst_storeMessage)
  have h: "hd (map stamped (tl sample_run)) = \<lparr>topic = ''t'', payload = 1, timestamp = Some 1\<rparr>"
    by (simp only: h1 h2 h3)
  note T = storeMessage_capacity_fifo[of 0 "snd (hd sample_run)" new_MemStorage sample_run]
  from T l have a1: "length (messages (store_all sample_run new_MemStorage)) = 10000"
    by blast
  from T l have a2: "messages (store_all sample_run new_MemStorage) = map stamped (tl sample_run)"
    by blast
  from h have a3: "hd (messages (store_all sample_run new_MemStorage))
        = \<lparr>topic = ''t'', payload = 1, timestamp = Some 1\<rparr>"
    by (simp only: a2)
  from l a1 a2 a3 show ?thesis by blast
qed

subsection \<open>Queries by topic and window\<close>

lemma startTime_window: "startTime now w = now - window_length w"
  by (simp add: startTime_def window_length_def)

lemma getMessageHistory_spec_bounded:
  assumes "\<forall>m\<in>set (messages st). \<forall>ts. timestamp m = Some ts \<longrightarrow> ts \<le> now"
  shows "fst (getMessageHistory now tp w st) = query_spec now tp w st"
  unfolding getMessageHistory_def query_spec_def fst_conv startTime_window
  using assms by (intro filter_cong) auto

text \<open>
  The query as the specification words it bounds the timestamp by \<open>now\<close> from above; the
  code does not, and returns a retained message stamped later than the query's clock.
\<close>

theorem getMessageHistory_future_counterexample:
  "fst (getMessageHistory 1000 ''t'' ''1h'' future_store) \<noteq> query_spec 1000 ''t'' ''1h'' future_store"
  by (simp add: future_store_def getMessageHistory_def query_spec_def storeMessage_def
      new_MemStorage_def maxHistorySize_def startTime_def window_length_def Let_def)

text \<open>
  C4 (as the code has it).  \<open>getMessageHistory\<close> returns, in arrival order, the
  retained messages on the topic whose timestamp is not earlier than \<open>now - d\<close>, where
  \<open>d\<close> is 1 hour, 6 hours, 24 hours or 7 days for the four windows and 1 hour for every
  other value.  No upper bound is applied; when no retained timestamp is later than
  \<open>now\<close> the result is the specification's query.  The empty storage yields the empty
  sequence, and the storage is returned unchanged.
\<close>

theorem getMessageHistory_lower_bound_only:
  "fst (getMessageHistory now tp w st) =
     filter (\<lambda>msg. topic msg = tp \<and> timestamp msg \<noteq> None \<and>
               now - window_length w \<le> the (timestamp msg))
       (messages st)
   \<and> window_length ''1h'' = 60 * 60 * 1000
   \<and> window_length ''6h'' = 6 * 60 * 60 * 1000
   \<and> window_length ''24h'' = 24 * 60 * 60 * 1000
   \<and> window_length ''7d'' = 7 * 24 * 60 * 60 * 1000
   \<and> (w \<noteq> ''1h'' \<and> w \<noteq> ''6h'' \<and> w \<noteq> ''24h'' \<and> w \<noteq> ''7d'' \<longrightarrow>
        getMessageHistory now tp w st = getMessageHistory now tp ''1h'' st)
   \<and> ((\<forall>m\<in>set (messages st). \<forall>ts. timestamp m = Some ts \<longrightarrow> ts \<le> now) \<longrightarrow>
        fst (getMessageHistory now tp w st) = query_spec now tp w st)
   \<and> fst (getMessageHistory now tp w new_MemStorage) = []
   \<and> snd (getMessageHistory now tp w st) = st"
proof -
  have c1: "fst (getMessageHistory now tp w st) =
     filter (\<lambda>msg. topic msg = tp \<and> timestamp msg \<noteq> None \<and>
               now - window_length w \<le> the (timestamp msg))
       (messages st)"
    by (simp add: getMessageHistory_def startTime_window)
  have c2: "window_length ''1h'' = 60 * 60 * 1000" "window_length ''6h'' = 6 * 60 * 60 * 1000"
    "window_length ''24h'' = 24 * 60 * 60 * 1000" "window_length ''7d'' = 7 * 24 * 60 * 60 * 1000"
    by (simp_all add: window_length_def)
  have c3: "w \<noteq> ''1h'' \<and> w \<noteq> ''6h'' \<and> w \<noteq> ''24h'' \<and> w \<noteq> ''7d'' \<longrightarrow>
        getMessageHistory now tp w st = getMessageHistory now tp ''1h'' st"
    by (simp add: getMessageHistory_def startTime_def)
  have c4: "(\<forall>m\<in>set (messages st). \<forall>ts. timestamp m = Some ts \<longrightarrow> ts \<le> now) \<longrightarrow>
        fst (getMessageHistory now tp w st) = query_spec now tp w st"
    using getMessageHistory_spec_bounded by blast
  have c5: "fst (getMessageHistory now tp w new_MemStorage) = []"
    by (simp add: getMessageHistory_def new_MemStorage_def)
  have c6: "snd (getMessageHistory now tp w st) = st"
    by (simp add: getMessageHistory_def)
  from c1 c2 c3 c4 c5 c6 show ?thesis by blast
qed

lemma two_message_store_messages:
  "messages two_message_store =
     [\<lparr>topic = ''t'', payload = ''old'', timestamp = Some 2800000\<rparr>,
      \<lparr>topic = ''t'', payload = ''recent'', timestamp = Some 8200000\<rparr>]"
  by (simp add: two_message_store_def storeMessage_def new_MemStorage_def
      maxHistorySize_def Let_def)

theorem getMessageHistory_lower_bound_only_witness:
  "fst (getMessageHistory 10000000 ''t'' ''1h'' two_message_store)
     = [\<lparr>topic = ''t'', payload = ''recent'', timestamp = Some 8200000\<rparr>]
   \<and> fst (getMessageHistory 10000000 ''t'' ''6h'' two_message_store)
     = messages two_message_store
   \<and> ''2w'' \<noteq> ''1h'' \<and> ''2w'' \<noteq> ''6h'' \<and> ''2w'' \<noteq> ''24h'' \<and> ''2w'' \<noteq> ''7d''
   \<and> getMessageHistory 10000000 ''t'' ''2w'' two_message_store
     = getMessageHistory 10000000 ''t'' ''1h'' two_message_store
   \<and> fst (getMessageHistory 10000000 ''t'' ''2w'' two_message_store)
     = query_spec 10000000 ''t'' ''2w'' two_message_store"
proof -
  have b: "\<forall>m\<in>set (messages two_message_store). \<forall>ts. timestamp m = Some ts \<longrightarrow> ts \<le> 10000000"
    by (simp add: two_message_store_messages)
  have n: "''2w'' \<noteq> ''1h'' \<and> ''2w'' \<noteq> ''6h'' \<and> ''2w'' \<noteq> ''24h'' \<and> ''2w'' \<noteq> ''7d''"
    by simp
  note T = getMessageHistory_lower_bound_only[of 10000000 "''t''" _ two_message_store]
  have q1: "fst (getMessageHistory 10000000 ''t'' ''1h'' two_message_store)
     = [\<lparr>topic = ''t'', payload = ''recent'', timestamp = Some 8200000\<rparr>]"
    by (simp add: getMessageHistory_def two_message_store_messages startTime_def)
  have q6: "fst (getMessageHistory 10000000 ''t'' ''6h'' two_message_store)
     = messages two_message_store"
    by (simp add: getMessageHistory_def two_message_store_messages startTime_def)
  from T[of "''2w''"] b n q1 q6 show ?thesis by blast
qed


subsection \<open>Timestamps of retained messages\<close>

lemma timestamp_stamped: "timestamp (stamped nm) \<noteq> None"
  by (simp add: stamped_def fst_storeMessage)

lemma storeMessage_keeps_timestamps:
  assumes "\<forall>x\<in>set (messages st). timestamp x \<noteq> None"
  shows "\<forall>x\<in>set (messages (snd (storeMessage now m st))). timestamp x \<noteq> None"
proof
  fix x assume "x \<in> set (messages (snd (storeMessage now m st)))"
  then have "x \<in> set (messages st @ [stamped (now, m)])"
    unfolding messages_storeMessage by (rule in_set_dropD)
  with assms timestamp_stamped[of "(now, m)"] show "timestamp x \<noteq> None"
    by auto
qed

lemma store_all_timestamps:
  "\<forall>x\<in>set (messages (store_all ms new_MemStorage)). timestamp x \<noteq> None"
proof
  fix x assume "x \<in> set (messages (store_all ms new_MemStorage))"
  then have "x \<in> set (map stamped ms)"
    unfolding store_all_new by (rule in_set_dropD)
  then obtain nm where "x = stamped nm" by auto
  then show "timestamp x \<noteq> None"
    by (simp only: timestamp_stamped not_False_eq_True)
qed

lemma last_storeMessage:
  "last (messages (snd (storeMessage now m st))) = fst (storeMessage now m st)"
proof -
  have "Suc (length (messages st)) - maxHistorySize < length (messages st @ [stamped (now, m)])"
    by (simp add: maxHistorySize_def)
  then show ?thesis
    unfolding messages_storeMessage fst_storeMessage_stamped
    by (subst last_drop) simp_all
qed

text \<open>
  C9.  \<open>storeMessage\<close> gives a message that arrives without a timestamp the current time,
  keeps a timestamp that is present, and appends the message so stamped.  Hence every
  message retained after a run of calls on the empty storage has a timestamp, and a query
  leaves out a retained message of its topic only because its timestamp is too early.
\<close>

theorem storeMessage_assigns_timestamp:
  "timestamp (fst (storeMessage now m st)) = Some (case timestamp m of None \<Rightarrow> now | Some ts \<Rightarrow> ts)
   \<and> topic (fst (storeMessage now m st)) = topic m
   \<and> payload (fst (storeMessage now m st)) = payload m
   \<and> last (messages (snd (storeMessage now m st))) = fst (storeMessage now m st)
   \<and> ((\<forall>x\<in>set (messages st). timestamp x \<noteq> None) \<longrightarrow>
        (\<forall>x\<in>set (messages (snd (storeMessage now m st))). timestamp x \<noteq> None))
   \<and> (\<forall>x\<in>set (messages (store_all ms new_MemStorage)). timestamp x \<noteq> None)
   \<and> (\<forall>x\<in>set (messages (store_all ms new_MemStorage)).
        topic x = tp \<and> x \<notin> set (fst (getMessageHistory now' tp w (store_all ms new_MemStorage)))
        \<longrightarrow> (\<exists>ts. timestamp x = Some ts \<and> ts < startTime now' w))"
proof -
  have c1: "timestamp (fst (storeMessage now m st))
      = Some (case timestamp m of None \<Rightarrow> now | Some ts \<Rightarrow> ts)"
    by (simp add: fst_storeMessage split: option.splits)
  have c2: "topic (fst (storeMessage now m st)) = topic m"
    "payload (fst (storeMessage now m st)) = payload m"
    by (simp_all add: fst_storeMessage)
  have c3: "(\<forall>x\<in>set (messages st). timestamp x \<noteq> None) \<longrightarrow>
        (\<forall>x\<in>set (messages (snd (storeMessage now m st))). timestamp x \<noteq> None)"
    using storeMessage_keeps_timestamps by blast
  have c4: "\<forall>x\<in>set (messages (store_all ms new_MemStorage)).
        topic x = tp \<and> x \<notin> set (fst (getMessageHistory now' tp w (store_all ms new_MemStorage)))
        \<longrightarrow> (\<exists>ts. timestamp x = Some ts \<and> ts < startTime now' w)"
    using store_all_timestamps[of ms] by (auto simp: getMessageHistory_def)
  from c1 c2 c3 c4 last_storeMessage[of now m st] store_all_timestamps[of ms]
  show ?thesis by blast
qed

theorem storeMessage_assigns_timestamp_witness:
  "timestamp (fst (storeMessage 9000000 \<lparr>topic = ''t'', payload = ''new'', timestamp = None\<rparr>
      two_message_store)) = Some 9000000
   \<and> timestamp (fst (storeMessage 9000000 \<lparr>topic = ''t'', payload = ''new'', timestamp = Some 5\<rparr>
      two_message_store)) = Some 5
   \<and> list_all (\<lambda>x. timestamp x \<noteq> None) (messages two_message_store)
   \<and> list_all (\<lambda>x. timestamp x \<noteq> None)
       (messages (snd (storeMessage 9000000 \<lparr>topic = ''t'', payload = ''new'', timestamp = None\<rparr>
          two_message_store)))"
proof -
  let ?m = "\<lparr>topic = ''t'', payload = ''new'', timestamp = None\<rparr>"
  let ?m5 = "\<lparr>topic = ''t'', payload = ''new'', timestamp = Some 5\<rparr>"
  have h: "\<forall>x\<in>set (messages two_message_store). timestamp x \<noteq> None"
    by (simp add: two_message_store_messages)
  note T = storeMessage_assigns_timestamp[of 9000000 ?m two_message_store]
  from T h
  have a: "\<forall>x\<in>set (messages (snd (storeMessage 9000000 ?m two_message_store))). timestamp x \<noteq> None"
    by blast
  from T have "timestamp (fst (storeMessage 9000000 ?m two_message_store))
      = Some (case timestamp ?m of None \<Rightarrow> 9000000 | Some ts \<Rightarrow> ts)"
    by blast
  then have b: "timestamp (fst (storeMessage 9000000 ?m two_message_store)) = Some 9000000"
    by simp
  from storeMessage_assigns_timestamp[of 9000000 ?m5 two_message_store]
  have "timestamp (fst (storeMessage 9000000 ?m5 two_message_store))
      = Some (case timestamp ?m5 of None \<Rightarrow> 9000000 | Some ts \<Rightarrow> ts)"
    by blast
  then have c: "timestamp (fst (storeMessage 9000000 ?m5 two_message_store)) = Some 5"
    by simp
  from a b c h show ?thesis by (simp add: list_all_iff)
qed

subsection \<open>Topics\<close>

lemma find_Map_set_fresh:
  "find P (map snd m) = None \<Longrightarrow> P v \<Longrightarrow> find P (map snd (Map_set k v m)) = Some v"
  by (induction m) (auto split: if_splits)

lemma Map_set_append:
  "k \<notin> fst ` set m \<Longrightarrow> Map_set k v m = m @ [(k, v)]"
  by (induction m) auto

lemma ids_below_fresh:
  "ids_below_counter st \<Longrightarrow> topicId st \<notin> fst ` set (topics st)"
  by (auto simp: ids_below_counter_def list_all_iff)

lemma createTopic_existing:
  "find (\<lambda>t. path t = path tp) (getTopics st) = Some e \<Longrightarrow> createTopic tp st = (e, st)"
  by (simp add: createTopic_def getTopics_def)

lemma createTopic_new:
  assumes "find (\<lambda>t. path t = path tp) (getTopics st) = None"
  shows "createTopic tp st =
      (\<lparr>path = path tp, brokerId = brokerId tp, id_t = topicId st\<rparr>,
       st\<lparr>topicId := topicId st + 1,
          topics := Map_set (topicId st) \<lparr>path = path tp, brokerId = brokerId tp, id_t = topicId st\<rparr>
                      (topics st)\<rparr>)"
  using assms by (simp add: createTopic_def getTopics_def Let_def)

lemma createTopic_twice:
  "createTopic tp (snd (createTopic tp st)) = (fst (createTopic tp st), snd (createTopic tp st))"
proof (cases "find (\<lambda>t. path t = path tp) (getTopics st)")
  case (Some e)
  then show ?thesis by (simp add: createTopic_existing)
next
  case None
  let ?new = "\<lparr>path = path tp, brokerId = brokerId tp, id_t = topicId st\<rparr>"
  have "find (\<lambda>t. path t = path tp) (map snd (Map_set (topicId st) ?new (topics st))) = Some ?new"
    using None by (intro find_Map_set_fresh) (simp_all add: getTopics_def Map_values_def)
  then have "find (\<lambda>t. path t = path tp) (getTopics (snd (createTopic tp st))) = Some ?new"
    by (simp add: createTopic_new[OF None] getTopics_def Map_values_def)
  then show ?thesis
    by (simp add: createTopic_existing createTopic_new[OF None])
qed

lemma createTopic_ids_below:
  assumes "ids_below_counter st"
  shows "ids_below_counter (snd (createTopic tp st))"
proof (cases "find (\<lambda>t. path t = path tp) (getTopics st)")
  case (Some e)
  with assms show ?thesis by (simp add: createTopic_existing)
next
  case None
  have "Map_set (topicId st) v (topics st) = topics st @ [(topicId st, v)]" for v
    using assms by (intro Map_set_append ids_below_fresh)
  with assms show ?thesis
    by (auto simp: createTopic_new[OF None] ids_below_counter_def list_all_iff)
qed

lemma deleteTopic_ids_below:
  "ids_below_counter st \<Longrightarrow> ids_below_counter (snd (deleteTopic p st))"
  by (auto simp: deleteTopic_def Map_delete_def ids_below_counter_def list_all_iff
      split: option.splits)

text \<open>
  C10.  When a stored topic has the requested path, \<open>createTopic\<close> returns the first such
  topic and leaves the storage (topic collection and id counter) as it was.  Otherwise it
  builds the topic under the current counter value, advances the counter and appends the
  topic; the id is fresh whenever every id in use is below the counter, which holds for
  the empty storage and is kept by the call.  In both cases a second call with the same
  request returns the topic of the first call and changes nothing.
\<close>

theorem createTopic_idempotent_on_path:
  "((\<exists>t\<in>set (getTopics st). path t = path tp) \<longrightarrow>
       fst (createTopic tp st) \<in> set (getTopics st)
       \<and> path (fst (createTopic tp st)) = path tp
       \<and> find (\<lambda>t. path t = path tp) (getTopics st) = Some (fst (createTopic tp st))
       \<and> snd (createTopic tp st) = st)
   \<and> (\<not> (\<exists>t\<in>set (getTopics st). path t = path tp) \<longrightarrow>
       fst (createTopic tp st) = \<lparr>path = path tp, brokerId = brokerId tp, id_t = topicId st\<rparr>
       \<and> topicId (snd (createTopic tp st)) = topicId st + 1
       \<and> messages (snd (createTopic tp st)) = messages st
       \<and> (ids_below_counter st \<longrightarrow>
            topicId st \<notin> fst ` set (topics st)
            \<and> topics (snd (createTopic tp st)) = topics st @ [(topicId st, fst (createTopic tp st))]))
   \<and> createTopic tp (snd (createTopic tp st)) = (fst (createTopic tp st), snd (createTopic tp st))
   \<and> (ids_below_counter st \<longrightarrow> ids_below_counter (snd (createTopic tp st)))
   \<and> ids_below_counter (new_MemStorage :: 'p MemStorage)"
proof -
  have c1: "(\<exists>t\<in>set (getTopics st). path t = path tp) \<longrightarrow>
       fst (createTopic tp st) \<in> set (getTopics st)
       \<and> path (fst (createTopic tp st)) = path tp
       \<and> find (\<lambda>t. path t = path tp) (getTopics st) = Some (fst (createTopic tp st))
       \<and> snd (createTopic tp st) = st"
  proof
    assume "\<exists>t\<in>set (getTopics st). path t = path tp"
    then obtain e where e: "find (\<lambda>t. path t = path tp) (getTopics st) = Some e"
      by (cases "find (\<lambda>t. path t = path tp) (getTopics st)") (auto simp: find_None_iff)
    then have "e \<in> set (getTopics st)" "path e = path tp"
      by (auto simp: find_Some_iff)
    with e show "fst (createTopic tp st) \<in> set (getTopics st)
       \<and> path (fst (createTopic tp st)) = path tp
       \<and> find (\<lambda>t. path t = path tp) (getTopics st) = Some (fst (createTopic tp st))
       \<and> snd (createTopic tp st) = st"
      by (simp add: createTopic_existing)
  qed
  have c2: "\<not> (\<exists>t\<in>set (getTopics st). path t = path tp) \<longrightarrow>
       fst (createTopic tp st) = \<lparr>path = path tp, brokerId = brokerId tp, id_t = topicId st\<rparr>
       \<and> topicId (snd (createTopic tp st)) = topicId st + 1
       \<and> messages (snd (createTopic tp st)) = messages st
       \<and> (ids_below_counter st \<longrightarrow>
            topicId st \<notin> fst ` set (topics st)
            \<and> topics (snd (createTopic tp st)) = topics st @ [(topicId st, fst (createTopic tp st))])"
  proof
    assume "\<not> (\<exists>t\<in>set (getTopics st). path t = path tp)"
    then have n: "find (\<lambda>t. path t = path tp) (getTopics st) = None"
      by (simp add: find_None_iff)
    show "fst (createTopic tp st) = \<lparr>path = path tp, brokerId = brokerId tp, id_t = topicId st\<rparr>
       \<and> topicId (snd (createTopic tp st)) = topicId st + 1
       \<and> messages (snd (createTopic tp st)) = messages st
       \<and> (ids_below_counter st \<longrightarrow>
            topicId st \<notin> fst ` set (topics st)
            \<and> topics (snd (createTopic tp st)) = topics st @ [(topicId st, fst (createTopic tp st))])"
      by (simp add: createTopic_new[OF n] ids_below_fresh Map_set_append)
  qed
  have c5: "ids_below_counter (new_MemStorage :: 'p MemStorage)"
    by (simp add: ids_below_counter_def new_MemStorage_def)
  from c1 c2 c5 createTopic_twice[of tp st] createTopic_ids_below[of st tp]
  show ?thesis by blast
qed

lemma two_topic_store_eq:
  "two_topic_store =
     \<lparr>topics = [(1, \<lparr>path = ''sensor/a'', brokerId = 1, id_t = 1\<rparr>),
                (2, \<lparr>path = ''sensor/b'', brokerId = 1, id_t = 2\<rparr>)],
      messages = [], topicId = 3\<rparr>"
  by (simp add: two_topic_store_def createTopic_def new_MemStorage_def Map_values_def Let_def)

theorem createTopic_idempotent_on_path_witness:
  "createTopic \<lparr>path = ''sensor/a'', brokerId = 7\<rparr> two_topic_store
     = (\<lparr>path = ''sensor/a'', brokerId = 1, id_t = 1\<rparr>, two_topic_store)
   \<and> ids_below_counter two_topic_store
   \<and> fst (createTopic \<lparr>path = ''sensor/c'', brokerId = 7\<rparr> two_topic_store)
     = \<lparr>path = ''sensor/c'', brokerId = 7, id_t = 3\<rparr>
   \<and> topics (snd (createTopic \<lparr>path = ''sensor/c'', brokerId = 7\<rparr> two_topic_store))
     = topics two_topic_store @ [(3, \<lparr>path = ''sensor/c'', brokerId = 7, id_t = 3\<rparr>)]
   \<and> topicId (snd (createTopic \<lparr>path = ''sensor/c'', brokerId = 7\<rparr> two_topic_store)) = 4"
proof -
  let ?a = "\<lparr>path = ''sensor/a'', brokerId = 7\<rparr>"
  let ?c = "\<lparr>path = ''sensor/c'', brokerId = 7\<rparr>"
  have ex: "\<exists>t\<in>set (getTopics two_topic_store). path t = path ?a"
    by (simp add: two_topic_store_eq getTopics_def Map_values_def)
  have nex: "\<not> (\<exists>t\<in>set (getTopics two_topic_store). path t = path ?c)"
    by (simp add: two_topic_store_eq getTopics_def Map_values_def)
  have inv: "ids_below_counter two_topic_store"
    by (simp add: two_topic_store_eq ids_below_counter_def)
  have f: "find (\<lambda>t. path t = path ?a) (getTopics two_topic_store)
      = Some \<lparr>path = ''sensor/a'', brokerId = 1, id_t = 1\<rparr>"
    by (simp add: two_topic_store_eq getTopics_def Map_values_def)
  have t3: "topicId two_topic_store = 3" by (simp add: two_topic_store_eq)
  note A = createTopic_idempotent_on_path[of two_topic_store ?a]
  note C = createTopic_idempotent_on_path[of two_topic_store ?c]
  from A ex have a0: "find (\<lambda>t. path t = path ?a) (getTopics two_topic_store)
      = Some (fst (createTopic ?a two_topic_store))"
    and a2: "snd (createTopic ?a two_topic_store) = two_topic_store"
    by blast+
  from a0 f have a1: "fst (createTopic ?a two_topic_store)
      = \<lparr>path = ''sensor/a'', brokerId = 1, id_t = 1\<rparr>"
    by simp
  from a1 a2 have a: "createTopic ?a two_topic_store
     = (\<lparr>path = ''sensor/a'', brokerId = 1, id_t = 1\<rparr>, two_topic_store)"
    by (simp add: prod_eq_iff)
  from C nex inv have c1: "fst (createTopic ?c two_topic_store)
      = \<lparr>path = path ?c, brokerId = brokerId ?c, id_t = topicId two_topic_store\<rparr>"
    and c2: "topics (snd (createTopic ?c two_topic_store))
      = topics two_topic_store @ [(topicId two_topic_store, fst (createTopic ?c two_topic_store))]"
    and c3: "topicId (snd (createTopic ?c two_topic_store)) = topicId two_topic_store + 1"
    by blast+
  from a inv c1 c2 c3 t3 show ?thesis by simp
qed

section \<open>Properties of the bridge\<close>

lemma storage_log [simp]: "storage (log l src s) = storage s"
  and world_log [simp]: "world (log l src s) = world s"
  and listeners_log [simp]: "messageListeners (log l src s) = messageListeners s"
  and topics_log [simp]: "subscribedTopics (log l src s) = subscribedTopics s"
  and pending_log [simp]: "pending (log l src s) = pending s"
  and client_log [simp]: "client (log l src s) = client s"
  and logged_log [simp]: "logged (log l src s) = logged s @ [(l, src)]"
  and isConnected_log [simp]: "isConnected (log l src s) = isConnected s"
  by (simp_all add: log_def isConnected_def)

lemma notify_keeps:
  "storage (notify ls m s) = storage s \<and> messageListeners (notify ls m s) = messageListeners s
   \<and> subscribedTopics (notify ls m s) = subscribedTopics s \<and> pending (notify ls m s) = pending s
   \<and> client (notify ls m s) = client s"
  by (induction ls arbitrary: s) (auto split: outcome.splits)

lemma world_notify:
  "world (notify ls m s) = fold (\<lambda>l w. world_after (l m (storage s) w)) ls (world s)"
proof (induction ls arbitrary: s)
  case Nil
  show ?case by simp
next
  case (Cons l ls)
  show ?case
    by (cases "l m (storage s) (world s)") (simp_all add: Cons.IH)
qed

subsection \<open>Receipt of a message\<close>

lemma on_message_unfold:
  "on_message P now tp text s =
     notify (messageListeners s) (received_message P now tp text)
       (s\<lparr>storage := snd (storeMessage now (received_message P now tp text) (storage s))\<rparr>)"
  by (simp add: on_message_def Let_def split_beta fst_storeMessage received_message_def)

lemma storage_on_message:
  "storage (on_message P now tp text s)
     = snd (storeMessage now (received_message P now tp text) (storage s))"
  by (simp add: on_message_unfold notify_keeps)

lemma last_stored_on_message:
  "last (messages (storage (on_message P now tp text s))) = received_message P now tp text"
  by (simp add: storage_on_message last_storeMessage fst_storeMessage received_message_def)

text \<open>
  C5.  The message built on receipt carries the value the parser returns for the payload
  text, and the text itself when the parser throws; this message is the one appended to
  the storage and the one every listener is called with.  With a parser that reads
  \<open>42\<close> as the number 42 the stored payload is that number, and with one that throws on
  \<open>not json\<close> the stored payload is the string \<open>not json\<close>.
\<close>

theorem received_payload_json_or_raw:
  "payload (received_message P now tp text) = (case P text of Some v \<Rightarrow> v | None \<Rightarrow> JString text)
   \<and> topic (received_message P now tp text) = tp
   \<and> timestamp (received_message P now tp text) = Some now
   \<and> last (messages (storage (on_message P now tp text s))) = received_message P now tp text
   \<and> world (on_message P now tp text s)
       = fold (\<lambda>l w. world_after (l (received_message P now tp text)
                                     (storage (on_message P now tp text s)) w))
           (messageListeners s) (world s)
   \<and> (P ''42'' = Some (JNumber 42) \<longrightarrow>
        payload (last (messages (storage (on_message P now tp ''42'' s)))) = JNumber 42)
   \<and> (P ''not json'' = None \<longrightarrow>
        payload (last (messages (storage (on_message P now tp ''not json'' s))))
          = JString ''not json'')"
proof -
  have c1: "payload (received_message P now tp text)
      = (case P text of Some v \<Rightarrow> v | None \<Rightarrow> JString text)"
    "topic (received_message P now tp text) = tp"
    "timestamp (received_message P now tp text) = Some now"
    by (simp_all add: received_message_def)
  have c2: "world (on_message P now tp text s)
       = fold (\<lambda>l w. world_after (l (received_message P now tp text)
                                     (storage (on_message P now tp text s)) w))
           (messageListeners s) (world s)"
    by (simp add: storage_on_message) (simp add: on_message_unfold world_notify)
  have c3: "P ''42'' = Some (JNumber 42) \<longrightarrow>
        payload (last (messages (storage (on_message P now tp ''42'' s)))) = JNumber 42"
    by (simp add: last_stored_on_message received_message_def)
  have c4: "P ''not json'' = None \<longrightarrow>
        payload (last (messages (storage (on_message P now tp ''not json'' s))))
          = JString ''not json''"
    by (simp add: last_stored_on_message received_message_def)
  from c1 c2 c3 c4 last_stored_on_message[of P now tp "text" s] show ?thesis by blast
qed

lemma decimal_parse_42: "decimal_parse ''42'' = Some (JNumber 42)"
  by (simp add: decimal_parse_def is_digit_def)

lemma decimal_parse_not_json: "decimal_parse ''not json'' = None"
  by (simp add: decimal_parse_def is_digit_def)

theorem received_payload_json_or_raw_witness:
  "decimal_parse ''42'' = Some (JNumber 42)
   \<and> payload (last (messages (storage (on_message decimal_parse 5 ''t'' ''42'' three_listener_client))))
       = JNumber 42
   \<and> decimal_parse ''not json'' = None
   \<and> payload (last (messages (storage
        (on_message decimal_parse 5 ''t'' ''not json'' three_listener_client))))
       = JString ''not json''"
  using received_payload_json_or_raw[of decimal_parse 5 "''t''" "''42''" three_listener_client]
    decimal_parse_42 decimal_parse_not_json
  by blast

subsection \<open>Fan-out to the listeners\<close>

text \<open>
  C6.  On receipt the message is appended to the storage first; then every registered
  listener is called with it, in registration order, each on the world its predecessor
  left and with the storage already holding the message.  A listener that throws only
  adds a log line: the listeners after it are still called and the storage keeps the
  message.  The listener list and the subscription set are untouched.
\<close>

theorem on_message_store_then_fan_out:
  "storage (on_message P now tp text s)
     = snd (storeMessage now (received_message P now tp text) (storage s))
   \<and> last (messages (storage (on_message P now tp text s))) = received_message P now tp text
   \<and> world (on_message P now tp text s)
       = fold (\<lambda>l w. world_after (l (received_message P now tp text)
                                     (storage (on_message P now tp text s)) w))
           (messageListeners s) (world s)
   \<and> messageListeners (on_message P now tp text s) = messageListeners s
   \<and> subscribedTopics (on_message P now tp text s) = subscribedTopics s"
proof -
  have c2: "world (on_message P now tp text s)
       = fold (\<lambda>l w. world_after (l (received_message P now tp text)
                                     (storage (on_message P now tp text s)) w))
           (messageListeners s) (world s)"
    by (simp add: storage_on_message) (simp add: on_message_unfold world_notify)
  have c3: "messageListeners (on_message P now tp text s) = messageListeners s"
    "subscribedTopics (on_message P now tp text s) = subscribedTopics s"
    by (simp_all add: on_message_unfold notify_keeps)
  from c2 c3 storage_on_message[of P now tp "text" s] last_stored_on_message[of P now tp "text" s]
  show ?thesis by blast
qed

lemma three_listener_client_eq:
  "three_listener_client =
     \<lparr>client = None, messageListeners = [recorder ''first'', thrower, recorder ''third''],
      subscribedTopics = [], storage = new_MemStorage, logged = [], pending = [], world = []\<rparr>"
  by (simp add: three_listener_client_def addMessageListener_def new_MQTTServerClient_def)

text \<open>
  Three listeners, the second of which throws: the first and the third receive the decoded
  message, both see it in the storage, and the throw is logged.
\<close>

theorem on_message_store_then_fan_out_example:
  "messageListeners three_listener_client = [recorder ''first'', thrower, recorder ''third'']
   \<and> messages (storage (on_message decimal_parse 5 ''t'' ''42'' three_listener_client))
       = [\<lparr>topic = ''t'', payload = JNumber 42, timestamp = Some 5\<rparr>]
   \<and> world (on_message decimal_parse 5 ''t'' ''42'' three_listener_client)
       = [(''first'', JNumber 42, True), (''third'', JNumber 42, True)]
   \<and> logged (on_message decimal_parse 5 ''t'' ''42'' three_listener_client)
       = [(''Error in message listener: boom'', ''mqtt'')]"
proof -
  let ?s = "on_message decimal_parse 5 ''t'' ''42'' three_listener_client"
  let ?m = "\<lparr>topic = ''t'', payload = JNumber 42, timestamp = Some 5\<rparr>"
  note T = on_message_store_then_fan_out[of decimal_parse 5 "''t''" "''42''" three_listener_client]
  have m: "received_message decimal_parse 5 ''t'' ''42'' = ?m"
    by (simp add: received_message_def decimal_parse_42)
  have st: "messages (storage ?s) = [?m]"
    using T by (simp add: m three_listener_client_eq storeMessage_def new_MemStorage_def
        maxHistorySize_def Let_def)
  have w: "world ?s = [(''first'', JNumber 42, True), (''third'', JNumber 42, True)]"
    using T st by (simp add: m three_listener_client_eq recorder_def thrower_def)
  have l: "logged ?s = [(''Error in message listener: boom'', ''mqtt'')]"
    by (simp add: on_message_unfold m three_listener_client_eq recorder_def thrower_def)
  from st w l show ?thesis by (simp add: three_listener_client_eq)
qed

subsection \<open>Subscriptions\<close>

lemma connected_client_eq:
  "connected_client =
     \<lparr>client = Some \<lparr>connected = True\<rparr>, messageListeners = [], subscribedTopics = [],
      storage = new_MemStorage,
      logged = [(''Server connected to MQTT broker: ws://broker:9001'', ''mqtt'')],
      pending = [], world = ()\<rparr>"
  by (simp add: connected_client_def run_def new_MQTTServerClient_def on_connect_def log_def)

lemma isConnected_connected_client: "isConnected connected_client"
  by (simp add: connected_client_eq isConnected_def)

lemma subscribe_connected:
  "isConnected s \<Longrightarrow> subscribe p s = (True, s\<lparr>pending := pending s @ [SubscribeRequest p]\<rparr>)"
  by (simp add: subscribe_def)

lemma broker_reply_last_subscribe:
  "broker_reply (length (pending s)) err (s\<lparr>pending := pending s @ [SubscribeRequest p]\<rparr>)
     = subscribe_callback p err s"
  by (simp add: broker_reply_def Let_def)

text \<open>
  Read as stated, C7 makes the pattern a member of the subscription set as soon as
  \<open>subscribe\<close> returns on a connected bridge.  It is not: the set is written by the
  callback only.
\<close>

theorem subscribe_not_optimistic_counterexample:
  "\<not> (isConnected connected_client \<longrightarrow>
        ''sensor/a'' \<in> set (subscribedTopics (snd (subscribe ''sensor/a'' connected_client))))"
  by (simp add: isConnected_connected_client subscribe_connected) (simp add: connected_client_eq)

text \<open>
  C7 (as the code has it).  On a connected bridge \<open>subscribe\<close> returns \<open>true\<close> at once,
  hands the request to the library and leaves the subscription set and the log as they
  were.  The set changes when the broker answers: a positive answer adds the pattern, an
  error is logged, leaves the set unchanged and issues no new request.  Without a
  connected client \<open>subscribe\<close> logs and returns \<open>false\<close>.
\<close>

theorem subscribe_updates_on_acknowledgment:
  "(isConnected s \<longrightarrow>
      fst (subscribe p s) = True
      \<and> subscribedTopics (snd (subscribe p s)) = subscribedTopics s
      \<and> logged (snd (subscribe p s)) = logged s
      \<and> pending (snd (subscribe p s)) = pending s @ [SubscribeRequest p]
      \<and> subscribedTopics (broker_reply (length (pending s)) None (snd (subscribe p s)))
          = Set_add p (subscribedTopics s)
      \<and> p \<in> set (subscribedTopics (broker_reply (length (pending s)) None (snd (subscribe p s))))
      \<and> subscribedTopics (broker_reply (length (pending s)) (Some e) (snd (subscribe p s)))
          = subscribedTopics s
      \<and> pending (broker_reply (length (pending s)) (Some e) (snd (subscribe p s))) = pending s
      \<and> logged (broker_reply (length (pending s)) (Some e) (snd (subscribe p s)))
          = logged s @ [(''Error subscribing to topic '' @ p @ '': '' @ e, ''mqtt'')])
   \<and> (\<not> isConnected s \<longrightarrow>
      subscribe p s = (False, log ''Cannot subscribe, MQTT client not connected'' ''mqtt'' s))"
proof -
  have c1: "isConnected s \<longrightarrow>
      fst (subscribe p s) = True
      \<and> subscribedTopics (snd (subscribe p s)) = subscribedTopics s
      \<and> logged (snd (subscribe p s)) = logged s
      \<and> pending (snd (subscribe p s)) = pending s @ [SubscribeRequest p]"
    by (simp add: subscribe_connected)
  have c2: "isConnected s \<longrightarrow>
      subscribedTopics (broker_reply (length (pending s)) None (snd (subscribe p s)))
          = Set_add p (subscribedTopics s)
      \<and> p \<in> set (subscribedTopics (broker_reply (length (pending s)) None (snd (subscribe p s))))"
    by (simp add: subscribe_connected broker_reply_last_subscribe subscribe_callback_def
        Let_def Set_add_def)
  have c3: "isConnected s \<longrightarrow>
      subscribedTopics (broker_reply (length (pending s)) (Some e) (snd (subscribe p s)))
          = subscribedTopics s
      \<and> pending (broker_reply (length (pending s)) (Some e) (snd (subscribe p s))) = pending s
      \<and> logged (broker_reply (length (pending s)) (Some e) (snd (subscribe p s)))
          = logged s @ [(''Error subscribing to topic '' @ p @ '': '' @ e, ''mqtt'')]"
    by (simp add: subscribe_connected broker_reply_last_subscribe subscribe_callback_def)
  have c4: "\<not> isConnected s \<longrightarrow>
      subscribe p s = (False, log ''Cannot subscribe, MQTT client not connected'' ''mqtt'' s)"
    by (simp add: subscribe_def)
  from c1 c2 c3 c4 show ?thesis by blast
qed

theorem subscribe_updates_on_acknowledgment_witness:
  "isConnected connected_client
   \<and> fst (subscribe ''sensor/a'' connected_client) = True
   \<and> subscribedTopics (snd (subscribe ''sensor/a'' connected_client)) = []
   \<and> subscribedTopics (broker_reply 0 None (snd (subscribe ''sensor/a'' connected_client)))
       = [''sensor/a'']
   \<and> subscribedTopics (broker_reply 0 (Some ''refused'') (snd (subscribe ''sensor/a'' connected_client)))
       = []
   \<and> pending (broker_reply 0 (Some ''refused'') (snd (subscribe ''sensor/a'' connected_client)))
       = []"
proof -
  have p0: "length (pending connected_client) = 0" "pending connected_client = []"
    "subscribedTopics connected_client = []"
    by (simp_all add: connected_client_eq)
  from subscribe_updates_on_acknowledgment[of connected_client "''sensor/a''" "''refused''"]
    isConnected_connected_client
  show ?thesis by (simp add: p0 Set_add_def)
qed

lemma distinct_Set_add: "distinct xs \<Longrightarrow> distinct (Set_add x xs)"
  by (simp add: Set_add_def)

lemma distinct_Set_delete: "distinct xs \<Longrightarrow> distinct (Set_delete x xs)"
  by (simp add: Set_delete_def)

lemma Set_add_idem: "Set_add x (Set_add x xs) = Set_add x xs"
  by (simp add: Set_add_def)

lemma count_Set_add: "distinct xs \<Longrightarrow> count_list (Set_add x xs) x = 1"
  by (induction xs) (auto simp: Set_add_def split: if_splits)

lemma topics_subscribe: "subscribedTopics (snd (subscribe p s)) = subscribedTopics s"
  by (simp add: subscribe_def)

lemma topics_unsubscribe: "subscribedTopics (snd (unsubscribe p s)) = subscribedTopics s"
  by (simp add: unsubscribe_def)

lemma topics_fold_subscribe:
  "subscribedTopics (fold (\<lambda>tp s'. snd (subscribe tp s')) ps s) = subscribedTopics s"
  by (induction ps arbitrary: s) (simp_all add: topics_subscribe)

lemma topics_on_connect: "subscribedTopics (on_connect url s) = subscribedTopics s"
  by (simp add: on_connect_def topics_fold_subscribe)

lemma topics_on_message: "subscribedTopics (on_message P now tp text s) = subscribedTopics s"
  by (simp add: on_message_unfold notify_keeps)

lemma distinct_broker_reply:
  "distinct (subscribedTopics s) \<Longrightarrow> distinct (subscribedTopics (broker_reply i err s))"
  by (auto simp: broker_reply_def Let_def subscribe_callback_def unsubscribe_callback_def
      distinct_Set_add distinct_Set_delete split: request.splits option.splits)

lemma distinct_step:
  "distinct (subscribedTopics s) \<Longrightarrow> distinct (subscribedTopics (step P ev s))"
  by (cases ev)
    (auto simp: topics_subscribe topics_unsubscribe distinct_broker_reply topics_on_connect
      topics_on_message addMessageListener_def split: option.splits)

lemma distinct_run:
  "distinct (subscribedTopics s) \<Longrightarrow> distinct (subscribedTopics (run P evs s))"
  unfolding run_def by (induction evs arbitrary: s) (simp_all add: distinct_step)

lemma isConnected_subscribe_callback: "isConnected (subscribe_callback p err s) = isConnected s"
  by (simp add: subscribe_callback_def isConnected_def log_def Let_def split: option.splits)

lemma subscribe_reply_subscribe_reply:
  assumes "isConnected s"
  shows "subscribedTopics (run P [Subscribe p, BrokerReply (length (pending s)) None,
                               Subscribe p, BrokerReply (length (pending s)) None] s)
          = Set_add p (subscribedTopics s)"
proof -
  let ?n = "length (pending s)"
  let ?s2 = "subscribe_callback p None s"
  have s2: "broker_reply ?n None (snd (subscribe p s)) = ?s2"
    using assms by (simp add: subscribe_connected broker_reply_last_subscribe)
  have c2: "isConnected ?s2" using assms by (simp add: isConnected_subscribe_callback)
  have p2: "pending ?s2 = pending s" by (simp add: subscribe_callback_def Let_def)
  have "broker_reply ?n None (snd (subscribe p ?s2)) = subscribe_callback p None ?s2"
    using c2 broker_reply_last_subscribe[of ?s2 None p]
    by (simp add: subscribe_connected p2)
  then have "run P [Subscribe p, BrokerReply ?n None, Subscribe p, BrokerReply ?n None] s
      = subscribe_callback p None ?s2"
    by (simp add: run_def s2)
  then show ?thesis
    by (simp add: subscribe_callback_def Let_def Set_add_idem)
qed

lemma subscribe_subscribe_reply_reply:
  assumes "isConnected s"
  shows "subscribedTopics (run P [Subscribe p, Subscribe p, BrokerReply (length (pending s)) None,
                               BrokerReply (length (pending s)) None] s)
          = Set_add p (subscribedTopics s)"
proof -
  let ?n = "length (pending s)"
  let ?s1 = "s\<lparr>pending := pending s @ [SubscribeRequest p]\<rparr>"
  have c1: "isConnected ?s1" using assms by (simp add: isConnected_def)
  have a: "snd (subscribe p (snd (subscribe p s)))
      = s\<lparr>pending := pending s @ [SubscribeRequest p, SubscribeRequest p]\<rparr>"
    using assms c1 by (simp add: subscribe_connected)
  have b: "broker_reply ?n None (s\<lparr>pending := pending s @ [SubscribeRequest p, SubscribeRequest p]\<rparr>)
      = subscribe_callback p None ?s1"
    by (simp add: broker_reply_def Let_def nth_append)
  have c: "broker_reply ?n None (subscribe_callback p None ?s1)
      = subscribe_callback p None (subscribe_callback p None s)"
    by (simp add: broker_reply_def Let_def subscribe_callback_def log_def)
  have "run P [Subscribe p, Subscribe p, BrokerReply ?n None, BrokerReply ?n None] s
      = subscribe_callback p None (subscribe_callback p None s)"
    by (simp add: run_def a b c)
  then show ?thesis
    by (simp add: subscribe_callback_def Let_def Set_add_idem)
qed

text \<open>
  C8.  On a connected bridge whose subscription set holds no pattern twice, subscribing to
  a pattern twice with both requests acknowledged leaves exactly one entry for it, whether
  the second call comes after the first acknowledgment or before it.  No event puts a
  pattern into the set twice, so the set of a bridge started from its initial state never
  holds a repetition.
\<close>

theorem subscribe_twice_one_entry:
  "(isConnected s \<and> distinct (subscribedTopics s) \<longrightarrow>
      count_list (subscribedTopics
        (run P [Subscribe p, BrokerReply (length (pending s)) None,
                Subscribe p, BrokerReply (length (pending s)) None] s)) p = 1
      \<and> count_list (subscribedTopics
        (run P [Subscribe p, Subscribe p, BrokerReply (length (pending s)) None,
                BrokerReply (length (pending s)) None] s)) p = 1)
   \<and> (distinct (subscribedTopics s) \<longrightarrow> distinct (subscribedTopics (step P ev s)))
   \<and> distinct (subscribedTopics (run P evs (new_MQTTServerClient w)))"
proof -
  have c1: "isConnected s \<and> distinct (subscribedTopics s) \<longrightarrow>
      count_list (subscribedTopics
        (run P [Subscribe p, BrokerReply (length (pending s)) None,
                Subscribe p, BrokerReply (length (pending s)) None] s)) p = 1
      \<and> count_list (subscribedTopics
        (run P [Subscribe p, Subscribe p, BrokerReply (length (pending s)) None,
                BrokerReply (length (pending s)) None] s)) p = 1"
    by (simp add: subscribe_reply_subscribe_reply subscribe_subscribe_reply_reply count_Set_add)
  have c2: "distinct (subscribedTopics s) \<longrightarrow> distinct (subscribedTopics (step P ev s))"
    by (simp add: distinct_step)
  have c3: "distinct (subscribedTopics (run P evs (new_MQTTServerClient w)))"
    by (rule distinct_run) (simp add: new_MQTTServerClient_def)
  from c1 c2 c3 show ?thesis by blast
qed

theorem subscribe_twice_one_entry_witness:
  "isConnected connected_client \<and> distinct (subscribedTopics connected_client)
   \<and> subscribedTopics (run decimal_parse
        [Subscribe ''sensor/a'', BrokerReply 0 None, Subscribe ''sensor/a'', BrokerReply 0 None]
        connected_client) = [''sensor/a'']
   \<and> count_list (subscribedTopics (run decimal_parse
        [Subscribe ''sensor/a'', BrokerReply 0 None, Subscribe ''sensor/a'', BrokerReply 0 None]
        connected_client)) ''sensor/a'' = 1
   \<and> count_list (subscribedTopics (run decimal_parse
        [Subscribe ''sensor/a'', Subscribe ''sensor/a'', BrokerReply 0 None, BrokerReply 0 None]
        connected_client)) ''sensor/a'' = 1"
proof -
  have d: "distinct (subscribedTopics connected_client)" "length (pending connected_client) = 0"
    by (simp_all add: connected_client_eq)
  have e: "subscribedTopics (run decimal_parse
        [Subscribe ''sensor/a'', BrokerReply 0 None, Subscribe ''sensor/a'', BrokerReply 0 None]
        connected_client) = [''sensor/a'']"
    using subscribe_reply_subscribe_reply[OF isConnected_connected_client, of decimal_parse "''sensor/a''"]
    by (simp add: d) (simp add: connected_client_eq Set_add_def)
  note T = subscribe_twice_one_entry[of connected_client decimal_parse "''sensor/a''"
      ClientCreated "[]" "()"]
  from T isConnected_connected_client d(1)
  have c: "count_list (subscribedTopics
        (run decimal_parse [Subscribe ''sensor/a'', BrokerReply (length (pending connected_client)) None,
                Subscribe ''sensor/a'', BrokerReply (length (pending connected_client)) None]
           connected_client)) ''sensor/a'' = 1
      \<and> count_list (subscribedTopics
        (run decimal_parse [Subscribe ''sensor/a'', Subscribe ''sensor/a'',
                BrokerReply (length (pending connected_client)) None,
                BrokerReply (length (pending connected_client)) None] connected_client)) ''sensor/a'' = 1"
    by blast
  from c isConnected_connected_client d(1) e show ?thesis
    unfolding d(2) by blast
qed

end
